theory Spec2Isabelle
  imports Main "HOL-Library.Word" "HOL-Library.Multiset"
begin

section \<open>JavaScript strings\<close>

text \<open>
  A JavaScript string is a sequence of UTF-16 code units. String literals of
  \<^verbatim>\<open>server.js\<close> are written with \<open>js\<close> for their ASCII part and with explicit
  code units elsewhere (\<open>0xE1\<close> is a-acute, \<open>0x2014\<close> the em dash).
\<close>

type_synonym jschar = "16 word"
type_synonym jsstring = "jschar list"

definition js :: "string \<Rightarrow> jsstring" where
  "js s = map of_char s"

text \<open>
  \<^verbatim>\<open>String.prototype.toLowerCase\<close>, code unit by code unit, on Basic Latin and the
  Latin-1 Supplement (A-Z, and U+00C0..U+00DE but the multiplication sign U+00D7).
  Code units above U+00FF are left as they are. The built-in lower-cases the cased
  letters above U+00FF too, and some of them by their context (a capital sigma at the
  end of a word), so this function is the built-in on the strings of code units below
  U+0100, the strings that \<open>latin1\<close> accepts, and no more than a stand-in elsewhere.
\<close>

definition lowerUnit :: "jschar \<Rightarrow> jschar" where
  "lowerUnit c =
     (if (0x41 \<le> c \<and> c \<le> 0x5A) \<or> (0xC0 \<le> c \<and> c \<le> 0xDE \<and> c \<noteq> 0xD7)
      then c + 0x20 else c)"

definition toLowerCase :: "jsstring \<Rightarrow> jsstring" where
  "toLowerCase s = map lowerUnit s"


text \<open>The class \<^verbatim>\<open>\s\<close> of a JavaScript regular expression: WhiteSpace and LineTerminator.\<close>

definition isSpace :: "jschar \<Rightarrow> bool" where
  "isSpace c \<longleftrightarrow>
     c = 0x09 \<or> c = 0x0A \<or> c = 0x0B \<or> c = 0x0C \<or> c = 0x0D \<or> c = 0x20 \<or> c = 0xA0 \<or>
     c = 0x1680 \<or> (0x2000 \<le> c \<and> c \<le> 0x200A) \<or> c = 0x2028 \<or> c = 0x2029 \<or>
     c = 0x202F \<or> c = 0x205F \<or> c = 0x3000 \<or> c = 0xFEFF"

text \<open>
  \<^verbatim>\<open>s.split(/\s+/)\<close>: the pieces between the maximal runs of white space. A run at
  the start or at the end leaves an empty piece there, and the empty string splits
  into one empty piece. \<open>cur\<close> is the piece being read (reversed), \<open>inrun\<close> says that
  the last code unit read was white space.
\<close>

fun splitRun :: "jsstring \<Rightarrow> bool \<Rightarrow> jsstring \<Rightarrow> jsstring list" where
  "splitRun cur inrun [] = [rev cur]"
| "splitRun cur inrun (c # cs) =
     (if isSpace c then
        (if inrun then splitRun cur True cs else rev cur # splitRun [] True cs)
      else splitRun (c # cur) False cs)"

definition splitWs :: "jsstring \<Rightarrow> jsstring list" where
  "splitWs s = splitRun [] False s"

text \<open>\<^verbatim>\<open>xs.join(sep)\<close> on an array of strings.\<close>

fun join :: "jsstring \<Rightarrow> jsstring list \<Rightarrow> jsstring" where
  "join sep [] = []"
| "join sep [x] = x"
| "join sep (x # y # ys) = x @ sep @ join sep (y # ys)"

text \<open>\<^verbatim>\<open>s.includes(t)\<close>: \<open>t\<close> starts at some index of \<open>s\<close>.\<close>

definition startsWith :: "jsstring \<Rightarrow> jsstring \<Rightarrow> bool" where
  "startsWith s t \<longleftrightarrow> take (length t) s = t"

fun includesStr :: "jsstring \<Rightarrow> jsstring \<Rightarrow> bool" where
  "includesStr [] t = (t = [])"
| "includesStr (c # cs) t = (startsWith (c # cs) t \<or> includesStr cs t)"

section \<open>The regular expression of a query term\<close>

text \<open>
  \<^verbatim>\<open>term.replace(/[.*+?^${}()|[\]\\]/g, '\\$&')\<close> puts a backslash before each of
  the fourteen syntax characters of a pattern.
\<close>

definition isSyntaxChar :: "jschar \<Rightarrow> bool" where
  "isSyntaxChar c \<longleftrightarrow> c \<in> set (js ''.*+?^${}()|[]'') \<or> c = 0x5C"

definition escapeRegExp :: "jsstring \<Rightarrow> jsstring" where
  "escapeRegExp t = concat (map (\<lambda>c. if isSyntaxChar c then [0x5C, c] else [c]) t)"

text \<open>
  \<^verbatim>\<open>new RegExp(src, 'g')\<close> on the patterns that need no more than literal matching:
  a backslash followed by a syntax character stands for that character, any other
  code unit that is not a syntax character stands for itself. Every other pattern
  (an operator, a class escape such as \<^verbatim>\<open>\d\<close>, a dangling backslash) is outside the
  model and gives \<open>None\<close>.
\<close>

fun regExpLiteral :: "jsstring \<Rightarrow> jsstring option" where
  "regExpLiteral [] = Some []"
| "regExpLiteral [c] = (if isSyntaxChar c then None else Some [c])"
| "regExpLiteral (c # d # ds) =
     (if c = 0x5C then
        (if isSyntaxChar d then map_option (Cons d) (regExpLiteral ds) else None)
      else if isSyntaxChar c then None
      else map_option (Cons c) (regExpLiteral (d # ds)))"

text \<open>
  \<^verbatim>\<open>(text.match(re) || []).length\<close> for a global pattern that stands for the
  literal \<open>t\<close>: the matcher tries every index from \<open>lastIndex\<close> on; after a match
  \<open>lastIndex\<close> is the end of the match, one more when the match is empty; the loop
  ends when \<open>lastIndex\<close> is beyond the end of the text.
\<close>

function matchFrom :: "jsstring \<Rightarrow> jsstring \<Rightarrow> nat \<Rightarrow> nat" where
  "matchFrom t text i =
     (if length text < i then 0
      else if startsWith (drop i text) t
        then 1 + matchFrom t text (if t = [] then i + 1 else i + length t)
      else matchFrom t text (i + 1))"
  by pat_completeness auto
termination
  by (relation "measure (\<lambda>(t, text, i). length text + 1 - i)")
     (auto simp del: length_greater_0_conv simp add: length_greater_0_conv [symmetric])

declare matchFrom.simps [simp del]

definition matchCount :: "jsstring \<Rightarrow> jsstring \<Rightarrow> nat option" where
  "matchCount src text =
     (case regExpLiteral src of
        None \<Rightarrow> None
      | Some t \<Rightarrow> Some (matchFrom t text 0))"

section \<open>Project records\<close>

text \<open>
  A record of \<^verbatim>\<open>data/projects.json\<close>. Every field may be missing (\<open>None\<close>: the
  property reads \<^verbatim>\<open>undefined\<close>, or is \<^verbatim>\<open>null\<close>). \<open>progress\<close> is a number; the model
  takes whole percentages.
\<close>

datatype jsresponsible = Responsible (respName: "jsstring option")

datatype jsdocument = Document (title: "jsstring option")

record project =
  name :: "jsstring option"
  description :: "jsstring option"
  status :: "jsstring option"
  progress :: "int option"
  responsible :: "jsresponsible option"
  lastUpdate :: "jsstring option"
  tags :: "jsstring list option"
  documents :: "jsdocument list option"

text \<open>\<^verbatim>\<open>xs || []\<close>\<close>

definition orEmpty :: "'a list option \<Rightarrow> 'a list" where
  "orEmpty xs = (case xs of None \<Rightarrow> [] | Some ys \<Rightarrow> ys)"

text \<open>\<^verbatim>\<open>(project.responsible||{}).name\<close>\<close>

definition responsibleName :: "project \<Rightarrow> jsstring option" where
  "responsibleName p = (case responsible p of None \<Rightarrow> None | Some r \<Rightarrow> respName r)"

definition fieldsOf :: "project \<Rightarrow> jsstring option list" where
  "fieldsOf p =
     [name p, description p, status p, responsibleName p]
     @ map Some (orEmpty (tags p))
     @ map title (orEmpty (documents p))"

text \<open>\<^verbatim>\<open>fieldsOf.filter(Boolean)\<close>: a missing field and the empty string are falsy.\<close>

fun filterBoolean :: "jsstring option list \<Rightarrow> jsstring list" where
  "filterBoolean [] = []"
| "filterBoolean (None # fs) = filterBoolean fs"
| "filterBoolean (Some s # fs) = (if s = [] then filterBoolean fs else s # filterBoolean fs)"


definition searchText :: "project \<Rightarrow> jsstring" where
  "searchText p = toLowerCase (join (js '' '') (filterBoolean (fieldsOf p)))"

section \<open>Basic keyword scoring for retrieval\<close>

text \<open>
  The loop over \<^verbatim>\<open>q.split(/\s+/)\<close>: an empty term is skipped, every other term
  adds its number of matches. \<open>None\<close> is an exception of \<^verbatim>\<open>new RegExp\<close>.
\<close>

fun scoreTerms :: "jsstring \<Rightarrow> jsstring list \<Rightarrow> nat \<Rightarrow> nat option" where
  "scoreTerms text [] score = Some score"
| "scoreTerms text (term # rest) score =
     (if term = [] then scoreTerms text rest score
      else (case matchCount (escapeRegExp term) text of
              None \<Rightarrow> None
            | Some occur \<Rightarrow> scoreTerms text rest (score + occur)))"

text \<open>\<^verbatim>\<open>project.name && q.includes(project.name.toLowerCase())\<close>\<close>

definition nameMentioned :: "jsstring \<Rightarrow> project \<Rightarrow> bool" where
  "nameMentioned q p =
     (case name p of
        None \<Rightarrow> False
      | Some n \<Rightarrow> n \<noteq> [] \<and> includesStr q (toLowerCase n))"

text \<open>
  \<open>query\<close> is a string at the one call of the file, so \<^verbatim>\<open>query || ''\<close> is \<open>query\<close>.
\<close>

definition scoreProject :: "jsstring \<Rightarrow> project \<Rightarrow> nat option" where
  "scoreProject query p =
     (let q = toLowerCase query;
          text = searchText p
      in (case scoreTerms text (splitWs q) 0 of
            None \<Rightarrow> None
          | Some score \<Rightarrow> Some (if nameMentioned q p then score + 3 else score)))"

section \<open>The scoring as the specification words it\<close>

text \<open>
  The number of non-overlapping occurrences of \<open>t\<close> in \<open>xs\<close>, read from left to right:
  where \<open>t\<close> starts the text it is counted and the count goes on behind it, otherwise
  the count goes on one code unit further.
\<close>

function occurrences :: "jsstring \<Rightarrow> jsstring \<Rightarrow> nat" where
  "occurrences t xs =
     (if t = [] \<or> xs = [] then 0
      else if startsWith xs t then 1 + occurrences t (drop (length t) xs)
      else occurrences t (tl xs))"
  by pat_completeness auto
termination
  by (relation "measure (\<lambda>(t, xs). length xs)") auto

declare occurrences.simps [simp del]

text \<open>The non-empty white-space separated terms of the lowercased query.\<close>

definition queryTerms :: "jsstring \<Rightarrow> jsstring list" where
  "queryTerms query = filter (\<lambda>t. t \<noteq> []) (splitWs (toLowerCase query))"

text \<open>
  The searchable text in the specification's words: the fields that the record has,
  joined by spaces, in lower case.
\<close>

fun presentFields :: "jsstring option list \<Rightarrow> jsstring list" where
  "presentFields [] = []"
| "presentFields (None # fs) = presentFields fs"
| "presentFields (Some s # fs) = s # presentFields fs"

definition specText :: "project \<Rightarrow> jsstring" where
  "specText p = toLowerCase (join (js '' '') (presentFields (fieldsOf p)))"

definition isSubstring :: "jsstring \<Rightarrow> jsstring \<Rightarrow> bool" where
  "isSubstring t s \<longleftrightarrow> (\<exists>u v. s = u @ t @ v)"

text \<open>The number that \<open>scoreProject\<close> returns (it never throws, see \<open>scoreProject_scoreOf\<close>).\<close>

definition scoreOf :: "jsstring \<Rightarrow> project \<Rightarrow> nat" where
  "scoreOf query p =
     sum_list (map (\<lambda>t. occurrences t (searchText p)) (queryTerms query))
     + (if nameMentioned (toLowerCase query) p then 3 else 0)"

section \<open>The top of the ranking\<close>

text \<open>\<^verbatim>\<open>projects.map(p => ({ p, s: scoreProject(query, p) }))\<close>\<close>

fun scoreAll :: "jsstring \<Rightarrow> project list \<Rightarrow> (project \<times> nat) list option" where
  "scoreAll query [] = Some []"
| "scoreAll query (p # ps) =
     (case scoreProject query p of
        None \<Rightarrow> None
      | Some s \<Rightarrow> (case scoreAll query ps of
                    None \<Rightarrow> None
                  | Some rest \<Rightarrow> Some ((p, s) # rest)))"

text \<open>The comparator \<^verbatim>\<open>(a, b) => b.s - a.s\<close>.\<close>

definition byScore :: "project \<times> nat \<Rightarrow> project \<times> nat \<Rightarrow> int" where
  "byScore a b = int (snd b) - int (snd a)"

text \<open>
  \<^verbatim>\<open>Array.prototype.sort\<close> is stable (ECMAScript 2019; the optional chaining of the
  file needs a later engine still). With a comparator that orders by one number the
  result of a stable sort does not depend on the algorithm; here it is the insertion
  sort that puts an element before the first one that it does not have to follow.
\<close>

fun insertBy :: "('a \<Rightarrow> 'a \<Rightarrow> int) \<Rightarrow> 'a \<Rightarrow> 'a list \<Rightarrow> 'a list" where
  "insertBy cmp x [] = [x]"
| "insertBy cmp x (y # ys) = (if cmp x y \<le> 0 then x # y # ys else y # insertBy cmp x ys)"

definition sortBy :: "('a \<Rightarrow> 'a \<Rightarrow> int) \<Rightarrow> 'a list \<Rightarrow> 'a list" where
  "sortBy cmp xs = foldr (insertBy cmp) xs []"

text \<open>
  \<^verbatim>\<open>xs.slice(0, k)\<close>: a negative \<open>k\<close> counts from the end of the array, and the end
  of the slice is never before its start nor behind the end of the array.
\<close>

definition slice0 :: "int \<Rightarrow> 'a list \<Rightarrow> 'a list" where
  "slice0 k xs =
     (if k < 0 then take (nat (max (int (length xs) + k) 0)) xs
      else take (nat (min k (int (length xs)))) xs)"

text \<open>
  \<open>projects\<close> is the array of the module. The default \<^verbatim>\<open>k = 3\<close> is never used: the
  one call passes 4.
\<close>

definition getTopContext :: "project list \<Rightarrow> jsstring \<Rightarrow> int \<Rightarrow> project list option" where
  "getTopContext projects query k =
     (case scoreAll query projects of
        None \<Rightarrow> None
      | Some scored \<Rightarrow> Some (map fst (slice0 k (sortBy byScore scored))))"

section \<open>The chat handler\<close>

subsection \<open>Values of the request and of the response\<close>

datatype jsvalue =
    JUndefined | JNull | JBool bool | JNumber int | JString jsstring | JObject

fun truthy :: "jsvalue \<Rightarrow> bool" where
  "truthy JUndefined = False"
| "truthy JNull = False"
| "truthy (JBool b) = b"
| "truthy (JNumber n) = (n \<noteq> 0)"
| "truthy (JString s) = (s \<noteq> [])"
| "truthy JObject = True"

fun isString :: "jsvalue \<Rightarrow> bool" where
  "isString (JString s) = True"
| "isString v = False"

fun stringOf :: "jsvalue \<Rightarrow> jsstring" where
  "stringOf (JString s) = s"
| "stringOf v = []"

record chatBody =
  message :: jsvalue
  history :: jsvalue

record kpis =
  kstatus :: "jsstring option"
  kprogress :: "int option"
  docs :: nat
  klastUpdate :: "jsstring option"

datatype jsonBody =
    ErrorBody jsstring
  | ChatReply (reply: jsstring) (kpisOf: "kpis option") (usedModel: jsstring)

datatype response = Response (statusCode: nat) (payload: jsonBody)

subsection \<open>The provider\<close>

text \<open>
  The request of \<^verbatim>\<open>openai.chat.completions.create\<close>: the messages are pairs of a role
  and a content, the temperature 0.2 is kept in tenths.
\<close>

record completionRequest =
  model :: jsstring
  messages :: "(jsstring \<times> jsstring) list"
  temperatureTenths :: nat
  max_tokens :: nat

text \<open>
  The awaited promise rejects, or resolves to a completion. Of a completion the
  handler reads \<^verbatim>\<open>completion.choices?.[0]?.message?.content\<close>: that throws when the
  completion is \<^verbatim>\<open>null\<close> or \<^verbatim>\<open>undefined\<close>, and is \<^verbatim>\<open>undefined\<close> (\<open>None\<close>) when a link of
  the chain is missing.
\<close>

datatype completion = Nullish | Content "jsstring option"

datatype outcome = Rejects | Resolves completion

text \<open>What the handler does beyond its response, in order.\<close>

datatype event = Ranked jsstring int | Requested completionRequest

subsection \<open>Template literals\<close>

function showNat :: "nat \<Rightarrow> jsstring" where
  "showNat n =
     (if n < 10 then [0x30 + of_nat n]
      else showNat (n div 10) @ [0x30 + of_nat (n mod 10)])"
  by pat_completeness auto
termination
  by (relation "measure id") auto

declare showNat.simps [simp del]

definition showInt :: "int \<Rightarrow> jsstring" where
  "showInt i = (if i < 0 then 0x2D # showNat (nat (- i)) else showNat (nat i))"

text \<open>\<^verbatim>\<open>${x}\<close> for a string property that may be missing.\<close>

definition interp :: "jsstring option \<Rightarrow> jsstring" where
  "interp x = (case x of None \<Rightarrow> js ''undefined'' | Some s \<Rightarrow> s)"

text \<open>\<^verbatim>\<open>x || d\<close> for a string property that may be missing.\<close>

definition orElse :: "jsstring option \<Rightarrow> jsstring \<Rightarrow> jsstring" where
  "orElse x d = (case x of None \<Rightarrow> d | Some s \<Rightarrow> if s = [] then d else s)"

text \<open>\<^verbatim>\<open>${p.progress || 'N/D'}\<close>\<close>

definition progressOr :: "int option \<Rightarrow> jsstring \<Rightarrow> jsstring" where
  "progressOr x d = (case x of None \<Rightarrow> d | Some n \<Rightarrow> if n = 0 then d else showInt n)"

text \<open>\<^verbatim>\<open>(p.documents||[]).map(d=>d.title).join(', ')\<close>: a missing title joins as the empty string.\<close>

definition titles :: "project \<Rightarrow> jsstring" where
  "titles p =
     join (js '', '')
       (map (\<lambda>d. case title d of None \<Rightarrow> [] | Some t \<Rightarrow> t) (orEmpty (documents p)))"

definition emDash :: jsstring where
  "emDash = [0x2014]"

definition snippet :: "nat \<Rightarrow> project \<Rightarrow> jsstring" where
  "snippet i p =
     js ''#'' @ showNat (i + 1) @ js '' '' @ interp (name p)
     @ js ''\<newline>Estado: '' @ interp (status p)
     @ js ''\<newline>Avance: '' @ progressOr (progress p) (js ''N/D'') @ js ''%''
     @ js ''\<newline>Responsable: '' @ orElse (responsibleName p) (js ''N/D'')
     @ js ''\<newline>'' @ [0xDA] @ js ''ltima actualizaci'' @ [0xF3] @ js ''n: ''
     @ orElse (lastUpdate p) (js ''N/D'')
     @ js ''\<newline>Documentos: '' @ orElse (Some (titles p)) emDash
     @ js ''\<newline>Descripci'' @ [0xF3] @ js ''n: '' @ interp (description p)"

text \<open>\<^verbatim>\<open>contextProjects.map((p, i) => ...).join('\n\n')\<close>\<close>

definition projectSnippets :: "project list \<Rightarrow> jsstring" where
  "projectSnippets ctx =
     join (js ''\<newline>\<newline>'') (map (\<lambda>(i, p). snippet i p) (zip [0..<length ctx] ctx))"

definition systemPrompt :: jsstring where
  "systemPrompt =
     js ''Eres un asistente de COTRAFA SOCIAL. Responde en espa'' @ [0xF1]
     @ js ''ol, de forma concisa y '' @ [0xFA] @ js ''til. Si la pregunta no est'' @ [0xE1]
     @ js '' clara, pide aclaraci'' @ [0xF3]
     @ js ''n breve. Usa el siguiente contexto de proyectos solo si es relevante. ''
     @ js ''Nunca inventes datos fuera del contexto y si no aparece, dilo. ''
     @ js ''Si procede, incluye un mini resumen con Estado, Responsable y '' @ [0xDA]
     @ js ''ltima actualizaci'' @ [0xF3] @ js ''n.''"

subsection \<open>The two replies\<close>

definition topOf :: "project list \<Rightarrow> project option" where
  "topOf ctx = (case ctx of [] \<Rightarrow> None | p # ps \<Rightarrow> Some p)"

definition noLocalData :: jsstring where
  "noLocalData = js ''No hay datos locales para responder.''"

definition localReply :: "project option \<Rightarrow> jsstring" where
  "localReply top' =
     (case top' of
        None \<Rightarrow> noLocalData
      | Some t \<Rightarrow>
          js ''Seg'' @ [0xFA] @ js ''n el contexto, el proyecto '' @ [0x22] @ js ''+''
          @ interp (name t)
          @ js ''+'' @ [0x22] @ js '' est'' @ [0xE1] @ js '' '' @ [0x22]
          @ interp (status t)
          @ [0x22] @ js ''. Responsable: '' @ orElse (responsibleName t) (js ''N/D'')
          @ js ''. '' @ [0xDA] @ js ''ltima actualizaci'' @ [0xF3] @ js ''n: ''
          @ orElse (lastUpdate t) (js ''N/D'') @ js ''.'')"

definition topKpis :: "project option \<Rightarrow> kpis option" where
  "topKpis top' =
     (case top' of
        None \<Rightarrow> None
      | Some t \<Rightarrow>
          Some \<lparr>kstatus = status t, kprogress = progress t,
                docs = length (orEmpty (documents t)), klastUpdate = lastUpdate t\<rparr>)"

text \<open>\<^verbatim>\<open>s.trim()\<close>\<close>

definition trim :: "jsstring \<Rightarrow> jsstring" where
  "trim s = rev (dropWhile isSpace (rev (dropWhile isSpace s)))"

text \<open>\<^verbatim>\<open>completion.choices?.[0]?.message?.content?.trim() || 'No pude generar una respuesta.'\<close>\<close>

definition completionText :: "jsstring option \<Rightarrow> jsstring" where
  "completionText c =
     orElse (map_option trim c) (js ''No pude generar una respuesta.'')"

definition chatRequest :: "jsstring \<Rightarrow> project list \<Rightarrow> completionRequest" where
  "chatRequest msg ctx =
     \<lparr>model = js ''gpt-4o-mini'',
      messages =
        [(js ''system'', systemPrompt),
         (js ''user'',
          js ''Pregunta: '' @ msg @ js ''\<newline>\<newline>Contexto de proyectos:\<newline>''
          @ orElse (Some (projectSnippets ctx)) emDash)],
      temperatureTenths = 2,
      max_tokens = 300\<rparr>"

definition invalidMessage :: response where
  "invalidMessage = Response 400 (ErrorBody (js ''Mensaje inv'' @ [0xE1] @ js ''lido''))"

definition internalFailure :: response where
  "internalFailure = Response 500 (ErrorBody (js ''Fallo interno de chat''))"

subsection \<open>\<^verbatim>\<open>app.post('/api/chat', ...)\<close>\<close>

text \<open>
  \<open>apiKey\<close> is \<^verbatim>\<open>OPENAI_API_KEY\<close>, \<open>create\<close> is the call of the provider and \<open>body\<close> is
  \<^verbatim>\<open>req.body\<close>. The result is what the handler did, in order, and its response. An
  exception anywhere in the \<^verbatim>\<open>try\<close> block ends in the \<^verbatim>\<open>catch\<close> clause.
\<close>

definition chatAnswer ::
  "jsstring \<Rightarrow> (completionRequest \<Rightarrow> outcome) \<Rightarrow> jsstring \<Rightarrow> project list
     \<Rightarrow> event list \<times> response" where
  "chatAnswer apiKey create msg ctx =
     (if apiKey = [] then
        ([Ranked msg 4],
         Response 200
           (ChatReply (localReply (topOf ctx)) (topKpis (topOf ctx)) (js ''local-fallback'')))
      else
        (case create (chatRequest msg ctx) of
           Rejects \<Rightarrow> ([Ranked msg 4, Requested (chatRequest msg ctx)], internalFailure)
         | Resolves Nullish \<Rightarrow>
             ([Ranked msg 4, Requested (chatRequest msg ctx)], internalFailure)
         | Resolves (Content c) \<Rightarrow>
             ([Ranked msg 4, Requested (chatRequest msg ctx)],
              Response 200
                (ChatReply (completionText c) (topKpis (topOf ctx)) (js ''gpt-4o-mini'')))))"

definition chat ::
  "jsstring \<Rightarrow> project list \<Rightarrow> (completionRequest \<Rightarrow> outcome) \<Rightarrow> chatBody option
     \<Rightarrow> event list \<times> response" where
  "chat apiKey projects create body =
     (let msg = (case body of None \<Rightarrow> JUndefined | Some b \<Rightarrow> message b) in
      if \<not> truthy msg \<or> \<not> isString msg then ([], invalidMessage)
      else
        (case getTopContext projects (stringOf msg) 4 of
           None \<Rightarrow> ([Ranked (stringOf msg) 4], internalFailure)
         | Some ctx \<Rightarrow> chatAnswer apiKey create (stringOf msg) ctx))"

section \<open>Records of the examples\<close>

text \<open>A record that has a name and nothing else.\<close>

definition named :: "jsstring \<Rightarrow> project" where
  "named n =
     \<lparr>name = Some n, description = None, status = None, progress = None,
      responsible = None, lastUpdate = None, tags = None, documents = None\<rparr>"

text \<open>
  The record of the specification's end-to-end example:
  \<^verbatim>\<open>{name:"Alpha", status:"active", responsible:{name:"Ana"}, lastUpdate:"2024-01-01"}\<close>.
\<close>

definition alphaRecord :: project where
  "alphaRecord =
     \<lparr>name = Some (js ''Alpha''), description = None, status = Some (js ''active''),
      progress = None, responsible = Some (Responsible (Some (js ''Ana''))),
      lastUpdate = Some (js ''2024-01-01''), tags = None, documents = None\<rparr>"

text \<open>The reply of the local path that is expected for this record.\<close>

definition alphaReply :: jsstring where
  "alphaReply =
     js ''Seg'' @ [0xFA] @ js ''n el contexto, el proyecto '' @ [0x22] @ js ''+Alpha+'' @ [0x22]
     @ js '' est'' @ [0xE1] @ js '' '' @ [0x22] @ js ''active'' @ [0x22]
     @ js ''. Responsable: Ana. '' @ [0xDA] @ js ''ltima actualizaci'' @ [0xF3]
     @ js ''n: 2024-01-01.''"

section \<open>Lemmas: the escaped pattern and the matcher\<close>

lemma isSyntaxChar_backslash: "isSyntaxChar 0x5C"
  by (simp add: isSyntaxChar_def)

lemma regExpLiteral_plain:
  "\<not> isSyntaxChar c \<Longrightarrow> regExpLiteral (c # rest) = map_option (Cons c) (regExpLiteral rest)"
  using isSyntaxChar_backslash by (cases rest) auto

lemma regExpLiteral_escaped:
  "isSyntaxChar c \<Longrightarrow> regExpLiteral (0x5C # c # rest) = map_option (Cons c) (regExpLiteral rest)"
  by simp

lemma regExpLiteral_escapeRegExp: "regExpLiteral (escapeRegExp t) = Some t"
proof (induction t)
  case Nil
  show ?case by (simp add: escapeRegExp_def)
next
  case (Cons c cs)
  have step: "escapeRegExp (c # cs) = (if isSyntaxChar c then [0x5C, c] else [c]) @ escapeRegExp cs"
    by (simp add: escapeRegExp_def)
  show ?case
  proof (cases "isSyntaxChar c")
    case True
    then show ?thesis
      using Cons.IH by (simp add: step regExpLiteral_escaped del: regExpLiteral.simps)
  next
    case False
    then show ?thesis
      using Cons.IH by (simp add: step regExpLiteral_plain del: regExpLiteral.simps)
  qed
qed

lemma startsWith_length: "startsWith xs t \<Longrightarrow> length t \<le> length xs"
proof -
  assume "startsWith xs t"
  then have "length (take (length t) xs) = length t"
    by (simp add: startsWith_def)
  then show ?thesis by simp
qed

lemma matchFrom_occurrences:
  "t \<noteq> [] \<Longrightarrow> i \<le> length s \<Longrightarrow> matchFrom t s i = occurrences t (drop i s)"
proof (induction t s i rule: matchFrom.induct)
  case (1 t s i)
  show ?case
  proof (cases "i = length s")
    case True
    then have "matchFrom t s i = 0"
      using "1.prems" by (subst matchFrom.simps, subst matchFrom.simps) (simp add: startsWith_def)
    moreover have "occurrences t (drop i s) = 0"
      using True by (simp add: occurrences.simps)
    ultimately show ?thesis by simp
  next
    case False
    then have lt: "i < length s" using "1.prems" by simp
    then have ne: "drop i s \<noteq> []" by simp
    show ?thesis
    proof (cases "startsWith (drop i s) t")
      case True
      then have len: "i + length t \<le> length s"
        using lt startsWith_length [of "drop i s" t] by simp
      have "matchFrom t s i = 1 + matchFrom t s (i + length t)"
        using True lt "1.prems"(1) by (subst matchFrom.simps) simp
      also have "matchFrom t s (i + length t) = occurrences t (drop (i + length t) s)"
        using "1.IH"(1) True lt "1.prems"(1) len by simp
      also have "1 + occurrences t (drop (i + length t) s) = occurrences t (drop i s)"
        using True ne "1.prems"(1) by (subst (2) occurrences.simps) (simp add: add.commute)
      finally show ?thesis .
    next
      case nomatch: False
      have "matchFrom t s i = matchFrom t s (i + 1)"
        using nomatch lt by (subst matchFrom.simps) simp
      also have "\<dots> = occurrences t (drop (i + 1) s)"
        using "1.IH"(2) nomatch lt "1.prems"(1) by simp
      also have "\<dots> = occurrences t (drop i s)"
        using nomatch ne "1.prems"(1) by (subst (2) occurrences.simps) (simp add: drop_Suc tl_drop)
      finally show ?thesis .
    qed
  qed
qed

lemma matchCount_escapeRegExp:
  "t \<noteq> [] \<Longrightarrow> matchCount (escapeRegExp t) s = Some (occurrences t s)"
  by (simp add: matchCount_def regExpLiteral_escapeRegExp matchFrom_occurrences)

lemma scoreTerms_sum:
  "scoreTerms s ts acc =
     Some (acc + sum_list (map (\<lambda>t. occurrences t s) (filter (\<lambda>t. t \<noteq> []) ts)))"
  by (induction ts arbitrary: acc) (simp_all add: matchCount_escapeRegExp)

section \<open>Lemmas: counting occurrences\<close>

lemma occurrences_Nil: "occurrences t [] = 0"
  by (simp add: occurrences.simps)


lemma startsWith_append: "startsWith a t \<Longrightarrow> startsWith (a @ x) t"
  using startsWith_length [of a t] by (simp add: startsWith_def)


lemma occurrences_separator:
  "t \<noteq> [] \<Longrightarrow> c \<notin> set t \<Longrightarrow> occurrences t (a @ c # b) = occurrences t a + occurrences t b"
proof (induction t a rule: occurrences.induct)
  case (1 t a)
  note t = "1.prems"(1) and c = "1.prems"(2)
  show ?case
  proof (cases "a = []")
    case True
    have "\<not> startsWith (c # b) t"
      using t c by (cases t) (auto simp: startsWith_def)
    then have "occurrences t (c # b) = occurrences t b"
      using t by (subst occurrences.simps) simp
    then show ?thesis using True by (simp add: occurrences_Nil)
  next
    case False
    show ?thesis
    proof (cases "startsWith a t")
      case True
      then have len: "length t \<le> length a" by (rule startsWith_length)
      have l: "occurrences t a = 1 + occurrences t (drop (length t) a)"
        using True t False by (subst occurrences.simps) simp
      have r: "occurrences t (a @ c # b) = 1 + occurrences t (drop (length t) a @ c # b)"
        using startsWith_append [OF True, of "c # b"] t False len
        by (subst occurrences.simps) simp
      show ?thesis using "1.IH"(1) t c False True l r by simp
    next
      case nomatch: False
      have "\<not> startsWith (a @ c # b) t"
      proof
        assume sw: "startsWith (a @ c # b) t"
        show False
        proof (cases "length t \<le> length a")
          case True
          then have "startsWith (a @ c # b) t = startsWith a t"
            by (simp add: startsWith_def)
          then show False using sw nomatch by simp
        next
          case False
          then have "take (length t) (a @ c # b) = a @ c # take (length t - Suc (length a)) b"
            by (simp add: take_Cons')
          then have "c \<in> set t" using sw by (metis in_set_conv_decomp startsWith_def)
          then show False using c by simp
        qed
      qed
      then have r: "occurrences t (a @ c # b) = occurrences t (tl a @ c # b)"
        using t False by (subst occurrences.simps) simp
      have l: "occurrences t a = occurrences t (tl a)"
        using nomatch t False by (subst occurrences.simps) simp
      show ?thesis using "1.IH"(2) t c False nomatch l r by simp
    qed
  qed
qed

section \<open>Lemmas: the score of a record\<close>

lemma js_space: "js '' '' = [0x20]"
  by (simp add: js_def)

lemma lowerUnit_space: "lowerUnit 0x20 = 0x20"
  by (simp add: lowerUnit_def)

lemma toLowerCase_join:
  "toLowerCase (join sep xs) = join (toLowerCase sep) (map toLowerCase xs)"
  by (induction sep xs rule: join.induct) (simp_all add: toLowerCase_def)

lemma occurrences_join:
  "t \<noteq> [] \<Longrightarrow> c \<notin> set t \<Longrightarrow>
   occurrences t (join [c] xs) = sum_list (map (occurrences t) xs)"
  by (induction "[c]" xs rule: join.induct) (simp_all add: occurrences_Nil occurrences_separator)

lemma occurrences_filterBoolean:
  "sum_list (map (\<lambda>x. occurrences t (toLowerCase x)) (filterBoolean fs)) =
   sum_list (map (\<lambda>f. occurrences t (toLowerCase (orElse f []))) fs)"
  by (induction fs rule: filterBoolean.induct)
     (simp_all add: orElse_def toLowerCase_def occurrences_Nil)

lemma occurrences_presentFields:
  "sum_list (map (\<lambda>x. occurrences t (toLowerCase x)) (presentFields fs)) =
   sum_list (map (\<lambda>f. occurrences t (toLowerCase (orElse f []))) fs)"
  by (induction fs rule: presentFields.induct)
     (simp_all add: orElse_def toLowerCase_def occurrences_Nil)

lemma occurrences_searchText:
  assumes "t \<noteq> []" and "0x20 \<notin> set t"
  shows "occurrences t (searchText p) =
         sum_list (map (\<lambda>f. occurrences t (toLowerCase (orElse f []))) (fieldsOf p))"
proof -
  have "searchText p = join [0x20] (map toLowerCase (filterBoolean (fieldsOf p)))"
    by (simp add: searchText_def toLowerCase_join js_space) (simp add: toLowerCase_def lowerUnit_space)
  then show ?thesis
    using assms by (simp add: occurrences_join comp_def occurrences_filterBoolean)
qed

lemma occurrences_specText:
  assumes "t \<noteq> []" and "0x20 \<notin> set t"
  shows "occurrences t (specText p) =
         sum_list (map (\<lambda>f. occurrences t (toLowerCase (orElse f []))) (fieldsOf p))"
proof -
  have "specText p = join [0x20] (map toLowerCase (presentFields (fieldsOf p)))"
    by (simp add: specText_def toLowerCase_join js_space) (simp add: toLowerCase_def lowerUnit_space)
  then show ?thesis
    using assms by (simp add: occurrences_join comp_def occurrences_presentFields)
qed

lemma splitRun_no_space:
  "\<forall>c \<in> set cur. \<not> isSpace c \<Longrightarrow> t \<in> set (splitRun cur inrun s) \<Longrightarrow> c \<in> set t \<Longrightarrow> \<not> isSpace c"
  by (induction cur inrun s rule: splitRun.induct) (auto split: if_splits)

lemma isSpace_space: "isSpace 0x20"
  by (simp add: isSpace_def)

lemma queryTerms_plain:
  assumes "t \<in> set (queryTerms query)"
  shows "t \<noteq> []" and "0x20 \<notin> set t"
proof -
  show "t \<noteq> []" using assms by (simp add: queryTerms_def)
  have "t \<in> set (splitRun [] False (toLowerCase query))"
    using assms by (simp add: queryTerms_def splitWs_def)
  then have "\<forall>c \<in> set t. \<not> isSpace c"
    using splitRun_no_space [of "[]" t False "toLowerCase query"] by simp
  then show "0x20 \<notin> set t" using isSpace_space by blast
qed

lemma startsWith_iff: "startsWith s t \<longleftrightarrow> (\<exists>v. s = t @ v)"
proof
  assume "startsWith s t"
  then have "s = t @ drop (length t) s"
    by (metis append_take_drop_id startsWith_def)
  then show "\<exists>v. s = t @ v" ..
next
  assume "\<exists>v. s = t @ v"
  then show "startsWith s t" by (auto simp: startsWith_def)
qed

lemma includesStr_iff: "includesStr s t \<longleftrightarrow> isSubstring t s"
proof (induction s)
  case Nil
  show ?case by (simp add: isSubstring_def)
next
  case (Cons c cs)
  have "isSubstring t (c # cs) \<longleftrightarrow> startsWith (c # cs) t \<or> isSubstring t cs"
  proof
    assume "isSubstring t (c # cs)"
    then obtain u v where uv: "c # cs = u @ t @ v" by (auto simp: isSubstring_def)
    show "startsWith (c # cs) t \<or> isSubstring t cs"
    proof (cases u)
      case Nil
      then show ?thesis using uv by (auto simp: startsWith_iff)
    next
      case (Cons d u')
      then have "cs = u' @ t @ v" using uv by simp
      then show ?thesis by (auto simp: isSubstring_def)
    qed
  next
    assume "startsWith (c # cs) t \<or> isSubstring t cs"
    then show "isSubstring t (c # cs)"
    proof
      assume "startsWith (c # cs) t"
      then obtain v where "c # cs = [] @ t @ v" by (auto simp: startsWith_iff)
      then show ?thesis unfolding isSubstring_def by blast
    next
      assume "isSubstring t cs"
      then obtain u v where "cs = u @ t @ v" by (auto simp: isSubstring_def)
      then have "c # cs = (c # u) @ t @ v" by simp
      then show ?thesis unfolding isSubstring_def by blast
    qed
  qed
  then show ?case using Cons.IH by simp
qed

lemma scoreProject_sum:
  "scoreProject query p =
     Some (sum_list (map (\<lambda>t. occurrences t (searchText p)) (queryTerms query))
           + (if nameMentioned (toLowerCase query) p then 3 else 0))"
  by (simp add: scoreProject_def scoreTerms_sum queryTerms_def Let_def)

lemma scoreProject_fields:
  "scoreProject query p =
     Some (sum_list (map (\<lambda>t. sum_list (map (\<lambda>f. occurrences t (toLowerCase (orElse f []))) (fieldsOf p)))
                      (queryTerms query))
           + (if nameMentioned (toLowerCase query) p then 3 else 0))"
proof -
  have eq: "map (\<lambda>t. occurrences t (searchText p)) (queryTerms query) =
        map (\<lambda>t. sum_list (map (\<lambda>f. occurrences t (toLowerCase (orElse f []))) (fieldsOf p)))
          (queryTerms query)"
    by (rule map_cong [OF refl]) (simp add: occurrences_searchText queryTerms_plain)
  show ?thesis by (simp only: scoreProject_sum eq)
qed

section \<open>Lemmas: the stable sort and the slice\<close>

lemma scoreAll_map:
  "(\<And>p. scoreProject query p = Some (f p)) \<Longrightarrow>
   scoreAll query ps = Some (map (\<lambda>p. (p, f p)) ps)"
  by (induction ps) simp_all

lemma filter_insertBy:
  "filter (\<lambda>y. snd y = s) (insertBy byScore x ys) =
     (if snd x = s then x # filter (\<lambda>y. snd y = s) ys else filter (\<lambda>y. snd y = s) ys)"
  by (induction ys) (auto simp: byScore_def)

lemma filter_sortBy:
  "filter (\<lambda>y. snd y = s) (sortBy byScore xs) = filter (\<lambda>y. snd y = s) xs"
  by (induction xs) (simp_all add: sortBy_def filter_insertBy)

lemma mset_insertBy: "mset (insertBy cmp x ys) = add_mset x (mset ys)"
  by (induction ys) simp_all

lemma mset_sortBy: "mset (sortBy cmp xs) = mset xs"
  by (induction xs) (simp_all add: sortBy_def mset_insertBy)

lemma length_sortBy: "length (sortBy cmp xs) = length xs"
  using mset_sortBy [of cmp xs] by (metis size_mset)

lemma set_sortBy: "set (sortBy cmp xs) = set xs"
  using mset_sortBy [of cmp xs] by (metis set_mset_mset)

lemma slice0_take: "slice0 k xs = take (nat (if k < 0 then int (length xs) + k else k)) xs"
  by (simp add: slice0_def max_def min_def)

lemma filter_take: "\<exists>m. filter P (take n xs) = take m (filter P xs)"
proof -
  have "filter P xs = filter P (take n xs) @ filter P (drop n xs)"
    by (metis append_take_drop_id filter_append)
  then have "take (length (filter P (take n xs))) (filter P xs) = filter P (take n xs)"
    by simp
  then show ?thesis by metis
qed

lemma filter_map_fst:
  "\<forall>z \<in> set zs. snd z = f (fst z) \<Longrightarrow>
   filter (\<lambda>p. f p = s) (map fst zs) = map fst (filter (\<lambda>z. snd z = s) zs)"
  by (induction zs) auto

lemma mset_take_subset: "mset (take n xs) \<subseteq># mset xs"
  by (metis append_take_drop_id mset_append mset_subset_eq_add_left)

section \<open>Lemmas: the ranking\<close>

lemma scoreProject_scoreOf: "scoreProject query p = Some (scoreOf query p)"
  by (simp add: scoreProject_sum scoreOf_def)

lemma getTopContext_ranked:
  "getTopContext projects query k =
     Some (map fst (slice0 k (sortBy byScore (map (\<lambda>p. (p, scoreOf query p)) projects))))"
  by (simp add: getTopContext_def scoreAll_map [of query "scoreOf query"] scoreProject_scoreOf)

lemma ranked_stable:
  "\<exists>n. filter (\<lambda>p. scoreOf query p = s)
          (map fst (slice0 k (sortBy byScore (map (\<lambda>p. (p, scoreOf query p)) projects)))) =
        take n (filter (\<lambda>p. scoreOf query p = s) projects)"
proof -
  define scored where "scored = map (\<lambda>p. (p, scoreOf query p)) projects"
  define sorted where "sorted = sortBy byScore scored"
  obtain j where j: "slice0 k sorted = take j sorted"
    using slice0_take by blast
  have pairs: "\<forall>z \<in> set scored. snd z = scoreOf query (fst z)"
    by (auto simp: scored_def)
  then have pairs': "\<forall>z \<in> set (take j sorted). snd z = scoreOf query (fst z)"
    using set_sortBy [of byScore scored] by (auto simp: sorted_def dest: in_set_takeD)
  obtain m where m: "filter (\<lambda>z. snd z = s) (take j sorted) = take m (filter (\<lambda>z. snd z = s) sorted)"
    using filter_take by blast
  have "filter (\<lambda>p. scoreOf query p = s) (map fst (take j sorted)) =
        map fst (filter (\<lambda>z. snd z = s) (take j sorted))"
    using pairs' by (rule filter_map_fst)
  also have "\<dots> = map fst (take m (filter (\<lambda>z. snd z = s) scored))"
    unfolding m by (simp add: sorted_def filter_sortBy)
  also have "\<dots> = take m (map fst (filter (\<lambda>z. snd z = s) scored))"
    by (simp add: take_map)
  also have "map fst (filter (\<lambda>z. snd z = s) scored) = filter (\<lambda>p. scoreOf query p = s) (map fst scored)"
    using pairs by (rule filter_map_fst [symmetric])
  also have "map fst scored = projects"
    by (simp add: scored_def comp_def)
  finally show ?thesis
    using j by (auto simp: scored_def sorted_def)
qed

lemma ranked_length:
  "length (slice0 k (sortBy byScore (map (\<lambda>p. (p, scoreOf query p)) projects))) =
     (if k < 0 then nat (int (length projects) + k) else min (nat k) (length projects))"
  by (simp add: slice0_take length_sortBy min.commute)

lemma ranked_mset:
  "mset (map fst (slice0 k (sortBy byScore (map (\<lambda>p. (p, scoreOf query p)) projects))))
     \<subseteq># mset projects"
proof -
  define scored where "scored = map (\<lambda>p. (p, scoreOf query p)) projects"
  have "mset (slice0 k (sortBy byScore scored)) \<subseteq># mset scored"
    using mset_take_subset [of _ "sortBy byScore scored"]
    by (simp add: slice0_take mset_sortBy)
  then have "image_mset fst (mset (slice0 k (sortBy byScore scored))) \<subseteq># image_mset fst (mset scored)"
    by (rule image_mset_subseteq_mono)
  moreover have "map fst scored = projects"
    by (simp add: scored_def comp_def)
  ultimately show ?thesis
    by (metis mset_map scored_def)
qed













section \<open>Lemmas: the handler\<close>

lemma isSubstring_here: "isSubstring x (x @ b)"
  unfolding isSubstring_def by (rule exI [of _ "[]"]) simp

lemma isSubstring_later: "isSubstring x b \<Longrightarrow> isSubstring x (a @ b)"
proof -
  assume "isSubstring x b"
  then obtain u v where "b = u @ x @ v" by (auto simp: isSubstring_def)
  then have "a @ b = (a @ u) @ x @ v" by simp
  then show ?thesis unfolding isSubstring_def by blast
qed

lemma isSubstring_join: "j < length xs \<Longrightarrow> isSubstring (xs ! j) (join sep xs)"
proof (induction sep xs arbitrary: j rule: join.induct)
  case (1 sep)
  then show ?case by simp
next
  case (2 sep x)
  then show ?case using isSubstring_here [of x "[]"] by simp
next
  case (3 sep x y ys)
  show ?case
  proof (cases j)
    case 0
    then show ?thesis by (simp add: isSubstring_here)
  next
    case (Suc j')
    then have "isSubstring ((y # ys) ! j') (join sep (y # ys))"
      using "3.prems" by (intro "3.IH") simp
    then show ?thesis using Suc by (simp add: isSubstring_later)
  qed
qed

lemma snippet_in_block:
  "i < length ctx \<Longrightarrow> isSubstring (snippet i (ctx ! i)) (projectSnippets ctx)"
proof -
  assume i: "i < length ctx"
  let ?xs = "map (\<lambda>(i, p). snippet i p) (zip [0..<length ctx] ctx)"
  have "?xs ! i = snippet i (ctx ! i)" using i by simp
  moreover have "i < length ?xs" using i by simp
  ultimately show ?thesis
    using isSubstring_join [of i ?xs] by (simp add: projectSnippets_def)
qed

lemma isSubstring_refl: "isSubstring x x"
  using isSubstring_here [of x "[]"] by simp

lemma localReply_parts:
  "localReply (Some t) =
     (js ''Seg'' @ [0xFA] @ js ''n el contexto, '')
     @ (js ''el proyecto '' @ [0x22] @ js ''+'' @ interp (name t) @ js ''+'' @ [0x22])
     @ js '' ''
     @ (js ''est'' @ [0xE1] @ js '' '' @ [0x22] @ interp (status t) @ [0x22])
     @ js ''. ''
     @ (js ''Responsable: '' @ orElse (responsibleName t) (js ''N/D'') @ js ''. '')
     @ ([0xDA] @ js ''ltima actualizaci'' @ [0xF3] @ js ''n: ''
        @ orElse (lastUpdate t) (js ''N/D'') @ js ''.'')"
  by (simp add: localReply_def js_def)

lemma localReply_name:
  "isSubstring (js ''el proyecto '' @ [0x22] @ js ''+'' @ interp (name t) @ js ''+'' @ [0x22])
     (localReply (Some t))"
  unfolding localReply_parts by ((rule isSubstring_here | rule isSubstring_later)+)

lemma localReply_status:
  "isSubstring (js ''est'' @ [0xE1] @ js '' '' @ [0x22] @ interp (status t) @ [0x22])
     (localReply (Some t))"
  unfolding localReply_parts by ((rule isSubstring_here | rule isSubstring_later)+)

lemma localReply_responsible:
  "isSubstring (js ''Responsable: '' @ orElse (responsibleName t) (js ''N/D'') @ js ''. '')
     (localReply (Some t))"
  unfolding localReply_parts by ((rule isSubstring_here | rule isSubstring_later)+)

lemma localReply_lastUpdate:
  "isSubstring ([0xDA] @ js ''ltima actualizaci'' @ [0xF3] @ js ''n: ''
        @ orElse (lastUpdate t) (js ''N/D'') @ js ''.'')
     (localReply (Some t))"
  unfolding localReply_parts
  by ((rule isSubstring_refl | rule isSubstring_here | rule isSubstring_later)+)

lemma localReply_alpha: "localReply (Some alphaRecord) = alphaReply"
  by (simp add: localReply_def alphaRecord_def alphaReply_def interp_def orElse_def
      responsibleName_def js_def)

lemma ranked_nonempty:
  "projects \<noteq> [] \<Longrightarrow> 0 < k \<Longrightarrow>
   map fst (slice0 k (sortBy byScore (map (\<lambda>p. (p, scoreOf query p)) projects))) \<noteq> []"
  using ranked_length [of k query projects] by (cases projects) auto

lemma chat_valid:
  "m \<noteq> [] \<Longrightarrow> getTopContext projects m 4 = Some ctx \<Longrightarrow>
   chat apiKey projects create (Some \<lparr>message = JString m, history = h\<rparr>) =
     chatAnswer apiKey create m ctx"
  by (simp add: chat_def)

lemma getTopContext_single: "0 < k \<Longrightarrow> getTopContext [p] query k = Some [p]"
  by (simp add: getTopContext_ranked sortBy_def slice0_def)

lemma snippet_parts:
  "snippet i p =
     (js ''#'' @ showNat (i + 1) @ js '' '' @ interp (name p)
        @ js ''\<newline>Estado: '' @ interp (status p) @ js ''\<newline>'')
     @ (js ''Avance: '' @ progressOr (progress p) (js ''N/D'') @ js ''%'')
     @ js ''\<newline>''
     @ (js ''Responsable: '' @ orElse (responsibleName p) (js ''N/D'') @ js ''\<newline>'')
     @ ([0xDA] @ js ''ltima actualizaci'' @ [0xF3] @ js ''n: ''
        @ orElse (lastUpdate p) (js ''N/D'') @ js ''\<newline>'')
     @ (js ''Documentos: '' @ orElse (Some (titles p)) emDash @ js ''\<newline>'')
     @ js ''Descripci'' @ [0xF3] @ js ''n: '' @ interp (description p)"
  by (simp add: snippet_def js_def)

lemma snippet_avance:
  "isSubstring (js ''Avance: '' @ progressOr (progress p) (js ''N/D'') @ js ''%'') (snippet i p)"
  unfolding snippet_parts by ((rule isSubstring_here | rule isSubstring_later)+)

lemma snippet_responsable:
  "isSubstring (js ''Responsable: '' @ orElse (responsibleName p) (js ''N/D'') @ js ''\<newline>'')
     (snippet i p)"
  unfolding snippet_parts by ((rule isSubstring_here | rule isSubstring_later)+)

lemma snippet_actualizacion:
  "isSubstring ([0xDA] @ js ''ltima actualizaci'' @ [0xF3] @ js ''n: ''
        @ orElse (lastUpdate p) (js ''N/D'') @ js ''\<newline>'') (snippet i p)"
  unfolding snippet_parts by ((rule isSubstring_here | rule isSubstring_later)+)

lemma snippet_documentos:
  "isSubstring (js ''Documentos: '' @ orElse (Some (titles p)) emDash @ js ''\<newline>'')
     (snippet i p)"
  unfolding snippet_parts by ((rule isSubstring_here | rule isSubstring_later)+)

section \<open>The claims\<close>

subsection \<open>C1: the score of a record\<close>

text \<open>
  C1, as the code has it. For every query and every record, \<open>scoreProject\<close> returns the
  sum, over the non-empty white-space separated terms of the lowercased query, of the
  number of non-overlapping occurrences (from left to right) of the term in the
  record's lowercase searchable text, plus 3 if the record has a non-empty name whose
  lowercase form is a substring of the lowercased query, and plus nothing otherwise.
  The guard \<^verbatim>\<open>project.name &&\<close> keeps the bonus from a record whose name is the empty
  string, although the empty string is a substring of every query.
\<close>

theorem scoreProject_spec:
  "scoreProject query p =
     Some (sum_list (map (\<lambda>t. occurrences t (specText p)) (queryTerms query))
           + (if \<exists>n. name p = Some n \<and> n \<noteq> [] \<and> isSubstring (toLowerCase n) (toLowerCase query)
              then 3 else 0))"
proof -
  have eq: "map (\<lambda>t. occurrences t (specText p)) (queryTerms query) =
        map (\<lambda>t. sum_list (map (\<lambda>f. occurrences t (toLowerCase (orElse f []))) (fieldsOf p)))
          (queryTerms query)"
    by (rule map_cong [OF refl]) (simp add: occurrences_specText queryTerms_plain)
  have bonus: "nameMentioned (toLowerCase query) p \<longleftrightarrow>
      (\<exists>n. name p = Some n \<and> n \<noteq> [] \<and> isSubstring (toLowerCase n) (toLowerCase query))"
    by (cases "name p") (simp_all add: nameMentioned_def includesStr_iff)
  show ?thesis by (simp only: scoreProject_fields eq bonus)
qed

text \<open>
  The query \<^verbatim>\<open>"Alpha a"\<close> on the record Alpha: six occurrences (one of \<^verbatim>\<open>alpha\<close>, five of
  \<^verbatim>\<open>a\<close> in \<^verbatim>\<open>alpha active ana\<close>) and the bonus.
\<close>

theorem scoreProject_spec_witness:
  "scoreProject (js ''Alpha a'') alphaRecord = Some 9 \<and>
   sum_list (map (\<lambda>t. occurrences t (specText alphaRecord)) (queryTerms (js ''Alpha a''))) = 6"
proof -
  have s: "scoreProject (js ''Alpha a'') alphaRecord = Some 9" by code_simp
  have "includesStr (toLowerCase (js ''Alpha a'')) (toLowerCase (js ''Alpha''))" by code_simp
  then have "isSubstring (toLowerCase (js ''Alpha'')) (toLowerCase (js ''Alpha a''))"
    by (simp only: includesStr_iff)
  moreover have "name alphaRecord = Some (js ''Alpha'')" and "js ''Alpha'' \<noteq> []"
    by (simp_all add: alphaRecord_def js_def)
  ultimately have "\<exists>n. name alphaRecord = Some n \<and> n \<noteq> [] \<and>
      isSubstring (toLowerCase n) (toLowerCase (js ''Alpha a''))"
    by blast
  then show ?thesis
    using scoreProject_spec [of "js ''Alpha a''" alphaRecord] s by simp
qed

text \<open>
  C1 as it is stated fails on a record whose name is the empty string: its lowercase
  name is a substring of the lowercased query \<^verbatim>\<open>"x"\<close>, and the score is 0, not 3.
\<close>

theorem scoreProject_empty_name_counterexample:
  "scoreProject (js ''x'') (named []) = Some 0 \<and>
   name (named []) = Some [] \<and>
   isSubstring (toLowerCase []) (toLowerCase (js ''x''))"
proof (intro conjI)
  show "scoreProject (js ''x'') (named []) = Some 0" by code_simp
  show "name (named []) = Some []" by (simp add: named_def)
  have "includesStr (toLowerCase (js ''x'')) (toLowerCase [])" by code_simp
  then show "isSubstring (toLowerCase []) (toLowerCase (js ''x''))"
    by (simp only: includesStr_iff)
qed

subsection \<open>C2: ties keep the order of the catalog\<close>

text \<open>
  C2. For every query, catalog and \<open>k\<close>, the ranking returns, and for every score
  the records of the result that have this score are a prefix of the records of the
  catalog that have it: records of equal score come in the order of the catalog.
\<close>

theorem getTopContext_stable:
  "\<exists>r. getTopContext projects query k = Some r \<and>
       (\<forall>s. \<exists>n. filter (\<lambda>p. scoreProject query p = Some s) r =
                 take n (filter (\<lambda>p. scoreProject query p = Some s) projects))"
  using ranked_stable [of query _ k projects]
  by (simp add: getTopContext_ranked scoreProject_scoreOf)

text \<open>Two records tie with score 1 behind none: they come out in catalog order.\<close>

theorem getTopContext_stable_witness:
  "getTopContext [named (js ''beta''), named (js ''alpha one''), named (js ''alpha two'')]
     (js ''alpha'') 2 = Some [named (js ''alpha one''), named (js ''alpha two'')] \<and>
   (\<exists>n. filter (\<lambda>p. scoreProject (js ''alpha'') p = Some 1)
          [named (js ''alpha one''), named (js ''alpha two'')] =
        take n (filter (\<lambda>p. scoreProject (js ''alpha'') p = Some 1)
          [named (js ''beta''), named (js ''alpha one''), named (js ''alpha two'')]))"
proof -
  have "getTopContext [named (js ''beta''), named (js ''alpha one''), named (js ''alpha two'')]
     (js ''alpha'') 2 = Some [named (js ''alpha one''), named (js ''alpha two'')]"
    by code_simp
  then show ?thesis
    using getTopContext_stable
      [of "[named (js ''beta''), named (js ''alpha one''), named (js ''alpha two'')]"
          "js ''alpha''" 2]
    by auto
qed

subsection \<open>C3: the empty results\<close>

text \<open>
  C3, as the code has it. For every query and catalog the ranking with \<open>k = 0\<close> is
  empty, and for every query and \<open>k\<close> the ranking of the empty catalog is empty. With
  a negative \<open>k\<close> the ranking of \<open>n\<close> records is the first \<open>n + k\<close> records (none when
  that is negative) of the whole ranking, the one that \<open>k = n\<close> gives:
  \<^verbatim>\<open>slice(0, k)\<close> counts a negative end from the end of the array.
\<close>

theorem getTopContext_empty:
  "getTopContext projects query 0 = Some [] \<and>
   getTopContext [] query k = Some [] \<and>
   (\<exists>r. getTopContext projects query k = Some r \<and>
        (k < 0 \<longrightarrow> length r = nat (int (length projects) + k))) \<and>
   (k < 0 \<longrightarrow>
      getTopContext projects query k =
        map_option (take (nat (int (length projects) + k)))
          (getTopContext projects query (int (length projects))))"
proof (intro conjI)
  show "getTopContext projects query 0 = Some []"
    by (simp add: getTopContext_ranked slice0_def)
  show "getTopContext [] query k = Some []"
    by (simp add: getTopContext_ranked slice0_def sortBy_def)
  show "\<exists>r. getTopContext projects query k = Some r \<and>
        (k < 0 \<longrightarrow> length r = nat (int (length projects) + k))"
    using ranked_length [of k query projects] by (simp add: getTopContext_ranked)
  show "k < 0 \<longrightarrow>
      getTopContext projects query k =
        map_option (take (nat (int (length projects) + k)))
          (getTopContext projects query (int (length projects)))"
    by (simp add: getTopContext_ranked slice0_take length_sortBy take_map)
qed

text \<open>
  On two records and the query \<^verbatim>\<open>b\<close> the whole ranking is \<^verbatim>\<open>b\<close>, \<^verbatim>\<open>a\<close>, and \<open>k = -1\<close>
  gives its first record.
\<close>

theorem getTopContext_empty_witness:
  "getTopContext [named (js ''a''), named (js ''b'')] (js ''b'') 0 = Some [] \<and>
   getTopContext [] (js ''b'') (- 1) = Some [] \<and>
   getTopContext [named (js ''a''), named (js ''b'')] (js ''b'') 2 =
     Some [named (js ''b''), named (js ''a'')] \<and>
   getTopContext [named (js ''a''), named (js ''b'')] (js ''b'') (- 1) = Some [named (js ''b'')]"
proof -
  have whole: "getTopContext [named (js ''a''), named (js ''b'')] (js ''b'') 2 =
     Some [named (js ''b''), named (js ''a'')]"
    by code_simp
  show ?thesis
    using getTopContext_empty [of "[named (js ''a''), named (js ''b'')]" "js ''b''" "- 1"] whole
    by simp
qed

text \<open>C3 as it is stated fails at \<open>k = -1\<close> on two records: the result has one record.\<close>

theorem getTopContext_negative_counterexample:
  "getTopContext [named (js ''a''), named (js ''b'')] (js ''a'') (- 1) = Some [named (js ''a'')]"
  by code_simp

subsection \<open>C4: at most \<open>k\<close> records of the catalog\<close>

text \<open>
  C4, as the code has it. For every query, catalog and \<open>k\<close> the ranking returns
  records of the catalog, each at most as often as it occurs there, and at most \<open>k\<close>
  of them when \<open>k\<close> is not negative.
\<close>

theorem getTopContext_bounded:
  "\<exists>r. getTopContext projects query k = Some r \<and>
       (0 \<le> k \<longrightarrow> int (length r) \<le> k) \<and>
       mset r \<subseteq># mset projects"
  using ranked_length [of k query projects] ranked_mset [of k query projects]
  by (auto simp: getTopContext_ranked)

theorem getTopContext_bounded_witness:
  "\<exists>r. getTopContext [named (js ''a''), named (js ''b'')] (js ''a'') 1 = Some r \<and>
       int (length r) \<le> 1 \<and>
       mset r \<subseteq># mset [named (js ''a''), named (js ''b'')]"
  using getTopContext_bounded [of "[named (js ''a''), named (js ''b'')]" "js ''a''" 1]
  by simp

text \<open>
  C4 as it is stated fails at \<open>k = -1\<close> on two records: the result has one record,
  which is more than \<open>k\<close>.
\<close>

theorem getTopContext_length_counterexample:
  "getTopContext [named (js ''a''), named (js ''b'')] (js ''b'') (- 1) = Some [named (js ''b'')] \<and>
   \<not> int (length [named (js ''b'')]) \<le> - 1"
  by code_simp

subsection \<open>C5: more occurrences, no smaller score\<close>




subsection \<open>C6: the reply without a provider\<close>

text \<open>
  C6. With no provider credential (\<open>apiKey\<close> empty) and a message that passes the
  input check (a non-empty string), the handler ranks, calls no provider and answers
  200 with \<open>usedModel = "local-fallback"\<close>. On an empty catalog the reply is the fixed
  message and \<open>kpis\<close> is \<open>null\<close>. On any other catalog the ranking has a first record
  \<open>t\<close>; \<open>kpis\<close> is its status, its progress, the number of its documents and its last
  update; the reply shows the name and the status that \<open>t\<close> has, the name of its
  responsible when that is a non-empty string and \<open>N/D\<close> when the responsible or its
  name is missing or empty, and the last update when that is a non-empty string and
  \<open>N/D\<close> when it is missing or empty. On the catalog of the one record Alpha and the
  query \<^verbatim>\<open>Alpha\<close> the reply is the expected text, which contains \<^verbatim>\<open>Alpha\<close> and
  \<^verbatim>\<open>active\<close>, and \<open>kpis.status\<close> is \<^verbatim>\<open>active\<close>.
\<close>

theorem chat_local_fallback:
  assumes "m \<noteq> []"
  shows "\<exists>ctx. getTopContext projects m 4 = Some ctx \<and>
     (\<exists>reply kp.
        chat [] projects create (Some \<lparr>message = JString m, history = h\<rparr>) =
          ([Ranked m 4], Response 200 (ChatReply reply kp (js ''local-fallback''))) \<and>
        (projects = [] \<longrightarrow>
           reply = js ''No hay datos locales para responder.'' \<and> kp = None) \<and>
        (projects \<noteq> [] \<longrightarrow>
           (\<exists>t rest. ctx = t # rest \<and>
              kp = Some \<lparr>kstatus = status t, kprogress = progress t,
                         docs = (case documents t of None \<Rightarrow> 0 | Some ds \<Rightarrow> length ds),
                         klastUpdate = lastUpdate t\<rparr> \<and>
              (\<forall>n. name t = Some n \<longrightarrow>
                 isSubstring (js ''el proyecto '' @ [0x22] @ js ''+'' @ n @ js ''+'' @ [0x22]) reply) \<and>
              (\<forall>s. status t = Some s \<longrightarrow>
                 isSubstring (js ''est'' @ [0xE1] @ js '' '' @ [0x22] @ s @ [0x22]) reply) \<and>
              (\<forall>r. responsible t = Some (Responsible (Some r)) \<and> r \<noteq> [] \<longrightarrow>
                 isSubstring (js ''Responsable: '' @ r @ js ''. '') reply) \<and>
              (responsible t = None \<or> responsible t = Some (Responsible None) \<or>
               responsible t = Some (Responsible (Some [])) \<longrightarrow>
                 isSubstring (js ''Responsable: N/D. '') reply) \<and>
              (\<forall>u. lastUpdate t = Some u \<and> u \<noteq> [] \<longrightarrow>
                 isSubstring
                   ([0xDA] @ js ''ltima actualizaci'' @ [0xF3] @ js ''n: '' @ u @ js ''.'') reply) \<and>
              (lastUpdate t = None \<or> lastUpdate t = Some [] \<longrightarrow>
                 isSubstring
                   ([0xDA] @ js ''ltima actualizaci'' @ [0xF3] @ js ''n: N/D.'') reply))) \<and>
        (projects = [alphaRecord] \<and> m = js ''Alpha'' \<longrightarrow>
           reply = alphaReply \<and>
           kp = Some \<lparr>kstatus = Some (js ''active''), kprogress = None, docs = 0,
                      klastUpdate = Some (js ''2024-01-01'')\<rparr> \<and>
           isSubstring (js ''Alpha'') reply \<and>
           isSubstring (js ''active'') reply))"
proof -
  obtain ctx where ctx: "getTopContext projects m 4 = Some ctx"
    by (simp add: getTopContext_ranked)
  define reply where "reply = localReply (topOf ctx)"
  define kp where "kp = topKpis (topOf ctx)"
  have resp: "chat [] projects create (Some \<lparr>message = JString m, history = h\<rparr>) =
       ([Ranked m 4], Response 200 (ChatReply reply kp (js ''local-fallback'')))"
    using assms ctx by (simp add: chat_valid chatAnswer_def reply_def kp_def)
  have none: "projects = [] \<longrightarrow>
      reply = js ''No hay datos locales para responder.'' \<and> kp = None"
  proof
    assume "projects = []"
    then have "ctx = []"
      using ctx by (simp add: getTopContext_ranked sortBy_def slice0_def)
    then show "reply = js ''No hay datos locales para responder.'' \<and> kp = None"
      by (simp add: topOf_def localReply_def noLocalData_def topKpis_def reply_def kp_def)
  qed
  have some: "projects \<noteq> [] \<longrightarrow>
           (\<exists>t rest. ctx = t # rest \<and>
              kp = Some \<lparr>kstatus = status t, kprogress = progress t,
                         docs = (case documents t of None \<Rightarrow> 0 | Some ds \<Rightarrow> length ds),
                         klastUpdate = lastUpdate t\<rparr> \<and>
              (\<forall>n. name t = Some n \<longrightarrow>
                 isSubstring (js ''el proyecto '' @ [0x22] @ js ''+'' @ n @ js ''+'' @ [0x22]) reply) \<and>
              (\<forall>s. status t = Some s \<longrightarrow>
                 isSubstring (js ''est'' @ [0xE1] @ js '' '' @ [0x22] @ s @ [0x22]) reply) \<and>
              (\<forall>r. responsible t = Some (Responsible (Some r)) \<and> r \<noteq> [] \<longrightarrow>
                 isSubstring (js ''Responsable: '' @ r @ js ''. '') reply) \<and>
              (responsible t = None \<or> responsible t = Some (Responsible None) \<or>
               responsible t = Some (Responsible (Some [])) \<longrightarrow>
                 isSubstring (js ''Responsable: N/D. '') reply) \<and>
              (\<forall>u. lastUpdate t = Some u \<and> u \<noteq> [] \<longrightarrow>
                 isSubstring
                   ([0xDA] @ js ''ltima actualizaci'' @ [0xF3] @ js ''n: '' @ u @ js ''.'') reply) \<and>
              (lastUpdate t = None \<or> lastUpdate t = Some [] \<longrightarrow>
                 isSubstring
                   ([0xDA] @ js ''ltima actualizaci'' @ [0xF3] @ js ''n: N/D.'') reply))"
  proof
    assume ne: "projects \<noteq> []"
    have "ctx \<noteq> []"
      using ctx ranked_nonempty [OF ne, of 4 m] by (simp add: getTopContext_ranked)
    then obtain t rest where tr: "ctx = t # rest" by (cases ctx) auto
    then have r: "reply = localReply (Some t)" by (simp add: reply_def topOf_def)
    have k: "kp = Some \<lparr>kstatus = status t, kprogress = progress t,
                         docs = (case documents t of None \<Rightarrow> 0 | Some ds \<Rightarrow> length ds),
                         klastUpdate = lastUpdate t\<rparr>"
      using tr by (simp add: kp_def topOf_def topKpis_def orEmpty_def split: option.splits)
    have nm: "\<forall>n. name t = Some n \<longrightarrow>
        isSubstring (js ''el proyecto '' @ [0x22] @ js ''+'' @ n @ js ''+'' @ [0x22]) reply"
      using localReply_name [of t] by (auto simp: r interp_def)
    have st: "\<forall>s. status t = Some s \<longrightarrow>
        isSubstring (js ''est'' @ [0xE1] @ js '' '' @ [0x22] @ s @ [0x22]) reply"
      using localReply_status [of t] by (auto simp: r interp_def)
    have rs: "\<forall>r. responsible t = Some (Responsible (Some r)) \<and> r \<noteq> [] \<longrightarrow>
        isSubstring (js ''Responsable: '' @ r @ js ''. '') reply"
      using localReply_responsible [of t] by (auto simp: r orElse_def responsibleName_def)
    have rn: "responsible t = None \<or> responsible t = Some (Responsible None) \<or>
        responsible t = Some (Responsible (Some [])) \<longrightarrow>
        isSubstring (js ''Responsable: N/D. '') reply"
      using localReply_responsible [of t]
      by (auto simp: r orElse_def responsibleName_def js_def)
    have lu: "\<forall>u. lastUpdate t = Some u \<and> u \<noteq> [] \<longrightarrow>
        isSubstring ([0xDA] @ js ''ltima actualizaci'' @ [0xF3] @ js ''n: '' @ u @ js ''.'') reply"
      using localReply_lastUpdate [of t] by (auto simp: r orElse_def)
    have ln: "lastUpdate t = None \<or> lastUpdate t = Some [] \<longrightarrow>
        isSubstring ([0xDA] @ js ''ltima actualizaci'' @ [0xF3] @ js ''n: N/D.'') reply"
      using localReply_lastUpdate [of t] by (auto simp: r orElse_def js_def)
    show "\<exists>t rest. ctx = t # rest \<and>
              kp = Some \<lparr>kstatus = status t, kprogress = progress t,
                         docs = (case documents t of None \<Rightarrow> 0 | Some ds \<Rightarrow> length ds),
                         klastUpdate = lastUpdate t\<rparr> \<and>
              (\<forall>n. name t = Some n \<longrightarrow>
                 isSubstring (js ''el proyecto '' @ [0x22] @ js ''+'' @ n @ js ''+'' @ [0x22]) reply) \<and>
              (\<forall>s. status t = Some s \<longrightarrow>
                 isSubstring (js ''est'' @ [0xE1] @ js '' '' @ [0x22] @ s @ [0x22]) reply) \<and>
              (\<forall>r. responsible t = Some (Responsible (Some r)) \<and> r \<noteq> [] \<longrightarrow>
                 isSubstring (js ''Responsable: '' @ r @ js ''. '') reply) \<and>
              (responsible t = None \<or> responsible t = Some (Responsible None) \<or>
               responsible t = Some (Responsible (Some [])) \<longrightarrow>
                 isSubstring (js ''Responsable: N/D. '') reply) \<and>
              (\<forall>u. lastUpdate t = Some u \<and> u \<noteq> [] \<longrightarrow>
                 isSubstring
                   ([0xDA] @ js ''ltima actualizaci'' @ [0xF3] @ js ''n: '' @ u @ js ''.'') reply) \<and>
              (lastUpdate t = None \<or> lastUpdate t = Some [] \<longrightarrow>
                 isSubstring
                   ([0xDA] @ js ''ltima actualizaci'' @ [0xF3] @ js ''n: N/D.'') reply)"
      using tr k nm st rs rn lu ln by blast
  qed
  have alpha: "projects = [alphaRecord] \<and> m = js ''Alpha'' \<longrightarrow>
           reply = alphaReply \<and>
           kp = Some \<lparr>kstatus = Some (js ''active''), kprogress = None, docs = 0,
                      klastUpdate = Some (js ''2024-01-01'')\<rparr> \<and>
           isSubstring (js ''Alpha'') reply \<and>
           isSubstring (js ''active'') reply"
  proof
    assume a: "projects = [alphaRecord] \<and> m = js ''Alpha''"
    have "ctx = [alphaRecord]"
      using ctx a by (simp add: getTopContext_single)
    then have top: "topOf ctx = Some alphaRecord" by (simp add: topOf_def)
    have r: "reply = alphaReply" by (simp add: reply_def top localReply_alpha)
    have k: "kp = Some \<lparr>kstatus = Some (js ''active''), kprogress = None, docs = 0,
                      klastUpdate = Some (js ''2024-01-01'')\<rparr>"
      by (simp add: kp_def top topKpis_def alphaRecord_def orEmpty_def)
    have "includesStr alphaReply (js ''Alpha'')" and "includesStr alphaReply (js ''active'')"
      by code_simp+
    then have "isSubstring (js ''Alpha'') reply" and "isSubstring (js ''active'') reply"
      by (simp_all only: r includesStr_iff)
    then show "reply = alphaReply \<and>
           kp = Some \<lparr>kstatus = Some (js ''active''), kprogress = None, docs = 0,
                      klastUpdate = Some (js ''2024-01-01'')\<rparr> \<and>
           isSubstring (js ''Alpha'') reply \<and>
           isSubstring (js ''active'') reply"
      using r k by simp
  qed
  show ?thesis
  proof (intro exI [of _ ctx] conjI)
    show "getTopContext projects m 4 = Some ctx" by (rule ctx)
    show "\<exists>reply kp.
        chat [] projects create (Some \<lparr>message = JString m, history = h\<rparr>) =
          ([Ranked m 4], Response 200 (ChatReply reply kp (js ''local-fallback''))) \<and>
        (projects = [] \<longrightarrow>
           reply = js ''No hay datos locales para responder.'' \<and> kp = None) \<and>
        (projects \<noteq> [] \<longrightarrow>
           (\<exists>t rest. ctx = t # rest \<and>
              kp = Some \<lparr>kstatus = status t, kprogress = progress t,
                         docs = (case documents t of None \<Rightarrow> 0 | Some ds \<Rightarrow> length ds),
                         klastUpdate = lastUpdate t\<rparr> \<and>
              (\<forall>n. name t = Some n \<longrightarrow>
                 isSubstring (js ''el proyecto '' @ [0x22] @ js ''+'' @ n @ js ''+'' @ [0x22]) reply) \<and>
              (\<forall>s. status t = Some s \<longrightarrow>
                 isSubstring (js ''est'' @ [0xE1] @ js '' '' @ [0x22] @ s @ [0x22]) reply) \<and>
              (\<forall>r. responsible t = Some (Responsible (Some r)) \<and> r \<noteq> [] \<longrightarrow>
                 isSubstring (js ''Responsable: '' @ r @ js ''. '') reply) \<and>
              (responsible t = None \<or> responsible t = Some (Responsible None) \<or>
               responsible t = Some (Responsible (Some [])) \<longrightarrow>
                 isSubstring (js ''Responsable: N/D. '') reply) \<and>
              (\<forall>u. lastUpdate t = Some u \<and> u \<noteq> [] \<longrightarrow>
                 isSubstring
                   ([0xDA] @ js ''ltima actualizaci'' @ [0xF3] @ js ''n: '' @ u @ js ''.'') reply) \<and>
              (lastUpdate t = None \<or> lastUpdate t = Some [] \<longrightarrow>
                 isSubstring
                   ([0xDA] @ js ''ltima actualizaci'' @ [0xF3] @ js ''n: N/D.'') reply))) \<and>
        (projects = [alphaRecord] \<and> m = js ''Alpha'' \<longrightarrow>
           reply = alphaReply \<and>
           kp = Some \<lparr>kstatus = Some (js ''active''), kprogress = None, docs = 0,
                      klastUpdate = Some (js ''2024-01-01'')\<rparr> \<and>
           isSubstring (js ''Alpha'') reply \<and>
           isSubstring (js ''active'') reply)"
      using resp none some alpha by blast
  qed
qed

text \<open>
  The record Alpha and the query \<^verbatim>\<open>Alpha\<close>: the whole response, and the responsible
  \<^verbatim>\<open>Ana\<close> and the last update in the reply.
\<close>

theorem chat_local_fallback_witness:
  "chat [] [alphaRecord] (\<lambda>r. Rejects)
     (Some \<lparr>message = JString (js ''Alpha''), history = JUndefined\<rparr>) =
     ([Ranked (js ''Alpha'') 4],
      Response 200
        (ChatReply alphaReply
           (Some \<lparr>kstatus = Some (js ''active''), kprogress = None, docs = 0,
                  klastUpdate = Some (js ''2024-01-01'')\<rparr>)
           (js ''local-fallback''))) \<and>
   isSubstring (js ''Alpha'') alphaReply \<and>
   isSubstring (js ''active'') alphaReply \<and>
   isSubstring (js ''Responsable: '' @ js ''Ana'' @ js ''. '') alphaReply \<and>
   isSubstring ([0xDA] @ js ''ltima actualizaci'' @ [0xF3] @ js ''n: '' @ js ''2024-01-01'' @ js ''.'')
     alphaReply"
proof -
  have m: "js ''Alpha'' \<noteq> []" by (simp add: js_def)
  have ctx: "getTopContext [alphaRecord] (js ''Alpha'') 4 = Some [alphaRecord]"
    by (simp add: getTopContext_single)
  have fields: "responsible alphaRecord = Some (Responsible (Some (js ''Ana'')))"
    "js ''Ana'' \<noteq> []" "lastUpdate alphaRecord = Some (js ''2024-01-01'')"
    "js ''2024-01-01'' \<noteq> []"
    by (simp_all add: alphaRecord_def js_def)
  obtain c reply kp where c: "getTopContext [alphaRecord] (js ''Alpha'') 4 = Some c"
    and resp: "chat [] [alphaRecord] (\<lambda>r. Rejects)
        (Some \<lparr>message = JString (js ''Alpha''), history = JUndefined\<rparr>) =
        ([Ranked (js ''Alpha'') 4], Response 200 (ChatReply reply kp (js ''local-fallback'')))"
    and some: "\<exists>t rest. c = t # rest \<and>
              (\<forall>r. responsible t = Some (Responsible (Some r)) \<and> r \<noteq> [] \<longrightarrow>
                 isSubstring (js ''Responsable: '' @ r @ js ''. '') reply) \<and>
              (\<forall>u. lastUpdate t = Some u \<and> u \<noteq> [] \<longrightarrow>
                 isSubstring
                   ([0xDA] @ js ''ltima actualizaci'' @ [0xF3] @ js ''n: '' @ u @ js ''.'') reply)"
    and alpha: "reply = alphaReply \<and>
           kp = Some \<lparr>kstatus = Some (js ''active''), kprogress = None, docs = 0,
                      klastUpdate = Some (js ''2024-01-01'')\<rparr> \<and>
           isSubstring (js ''Alpha'') reply \<and>
           isSubstring (js ''active'') reply"
    using chat_local_fallback [OF m, of "[alphaRecord]" "\<lambda>r. Rejects" JUndefined]
    by auto
  have "c = [alphaRecord]" using c ctx by simp
  then show ?thesis
    using resp some alpha fields by auto
qed

subsection \<open>C7: a failure of the provider\<close>

text \<open>
  C7, as the code has it. With a provider credential and a message that passes the
  input check, the handler ranks once and calls the provider once, whatever comes of
  the call, and never answers with the reply of the local path. When the call rejects
  (a network error, a status that is not 2xx, a response that cannot be read, a
  timeout) or resolves to \<^verbatim>\<open>null\<close>, the answer is 500 with the body
  \<^verbatim>\<open>{ error: "Fallo interno de chat" }\<close>: no reply, \<open>kpis\<close> or \<open>usedModel\<close>. When the call
  resolves to a completion that has no text (no choices, no message, no content, or a
  content of white space only), the optional chaining and the \<^verbatim>\<open>||\<close> of the handler
  take it for a success: the answer is 200 with the fixed reply
  \<^verbatim>\<open>No pude generar una respuesta.\<close>, the \<open>kpis\<close> of the top record and
  \<open>usedModel = "gpt-4o-mini"\<close>.
\<close>

theorem chat_provider_failure:
  assumes "apiKey \<noteq> []" and "m \<noteq> []"
    and "getTopContext projects m 4 = Some ctx"
  shows "fst (chat apiKey projects create (Some \<lparr>message = JString m, history = h\<rparr>)) =
       [Ranked m 4, Requested (chatRequest m ctx)] \<and>
     (\<forall>r k. snd (chat apiKey projects create (Some \<lparr>message = JString m, history = h\<rparr>)) \<noteq>
        Response 200 (ChatReply r k (js ''local-fallback''))) \<and>
     (create (chatRequest m ctx) = Rejects \<or> create (chatRequest m ctx) = Resolves Nullish \<longrightarrow>
        snd (chat apiKey projects create (Some \<lparr>message = JString m, history = h\<rparr>)) =
          Response 500 (ErrorBody (js ''Fallo interno de chat''))) \<and>
     (create (chatRequest m ctx) = Resolves (Content None) \<or>
      (\<exists>c. create (chatRequest m ctx) = Resolves (Content (Some c)) \<and> (\<forall>u \<in> set c. isSpace u)) \<longrightarrow>
        snd (chat apiKey projects create (Some \<lparr>message = JString m, history = h\<rparr>)) =
          Response 200
            (ChatReply (js ''No pude generar una respuesta.'')
               (case ctx of
                  [] \<Rightarrow> None
                | t # rest \<Rightarrow>
                    Some \<lparr>kstatus = status t, kprogress = progress t,
                          docs = (case documents t of None \<Rightarrow> 0 | Some ds \<Rightarrow> length ds),
                          klastUpdate = lastUpdate t\<rparr>)
               (js ''gpt-4o-mini'')))"
proof -
  let ?chat = "chat apiKey projects create (Some \<lparr>message = JString m, history = h\<rparr>)"
  have ans: "?chat = chatAnswer apiKey create m ctx"
    using assms by (simp add: chat_valid)
  have models: "js ''gpt-4o-mini'' \<noteq> js ''local-fallback''"
    by (simp add: js_def)
  have kp: "topKpis (topOf ctx) =
      (case ctx of
         [] \<Rightarrow> None
       | t # rest \<Rightarrow>
           Some \<lparr>kstatus = status t, kprogress = progress t,
                 docs = (case documents t of None \<Rightarrow> 0 | Some ds \<Rightarrow> length ds),
                 klastUpdate = lastUpdate t\<rparr>)"
    by (simp add: topKpis_def topOf_def orEmpty_def split: list.splits option.splits)
  have blank: "completionText (Some c) = js ''No pude generar una respuesta.''"
    if "\<forall>u \<in> set c. isSpace u" for c
  proof -
    have dw: "dropWhile isSpace c = []" using that by simp
    have "trim c = []" unfolding trim_def dw by simp
    then show ?thesis by (simp add: completionText_def orElse_def)
  qed
  have "fst ?chat = [Ranked m 4, Requested (chatRequest m ctx)]"
    using assms(1) by (simp add: ans chatAnswer_def split: outcome.splits completion.splits)
  moreover have "\<forall>r k. snd ?chat \<noteq> Response 200 (ChatReply r k (js ''local-fallback''))"
    using assms(1) models
    by (simp add: ans chatAnswer_def internalFailure_def split: outcome.splits completion.splits)
  moreover have "create (chatRequest m ctx) = Rejects \<or> create (chatRequest m ctx) = Resolves Nullish \<longrightarrow>
        snd ?chat = Response 500 (ErrorBody (js ''Fallo interno de chat''))"
    using assms(1) by (auto simp: ans chatAnswer_def internalFailure_def)
  moreover have "create (chatRequest m ctx) = Resolves (Content None) \<or>
      (\<exists>c. create (chatRequest m ctx) = Resolves (Content (Some c)) \<and> (\<forall>u \<in> set c. isSpace u)) \<longrightarrow>
        snd ?chat =
          Response 200
            (ChatReply (js ''No pude generar una respuesta.'')
               (case ctx of
                  [] \<Rightarrow> None
                | t # rest \<Rightarrow>
                    Some \<lparr>kstatus = status t, kprogress = progress t,
                          docs = (case documents t of None \<Rightarrow> 0 | Some ds \<Rightarrow> length ds),
                          klastUpdate = lastUpdate t\<rparr>)
               (js ''gpt-4o-mini''))"
  proof
    assume "create (chatRequest m ctx) = Resolves (Content None) \<or>
      (\<exists>c. create (chatRequest m ctx) = Resolves (Content (Some c)) \<and> (\<forall>u \<in> set c. isSpace u))"
    then show "snd ?chat =
          Response 200
            (ChatReply (js ''No pude generar una respuesta.'')
               (case ctx of
                  [] \<Rightarrow> None
                | t # rest \<Rightarrow>
                    Some \<lparr>kstatus = status t, kprogress = progress t,
                          docs = (case documents t of None \<Rightarrow> 0 | Some ds \<Rightarrow> length ds),
                          klastUpdate = lastUpdate t\<rparr>)
               (js ''gpt-4o-mini''))"
    proof
      assume "create (chatRequest m ctx) = Resolves (Content None)"
      then show ?thesis
        using assms(1) by (simp add: ans chatAnswer_def kp completionText_def orElse_def)
    next
      assume "\<exists>c. create (chatRequest m ctx) = Resolves (Content (Some c)) \<and> (\<forall>u \<in> set c. isSpace u)"
      then obtain c where "create (chatRequest m ctx) = Resolves (Content (Some c))"
        and "\<forall>u \<in> set c. isSpace u" by blast
      then show ?thesis
        using assms(1) blank [of c] by (simp add: ans chatAnswer_def kp)
    qed
  qed
  ultimately show ?thesis by blast
qed

text \<open>
  The record Alpha and the query \<^verbatim>\<open>Alpha\<close>, with a credential: a call that rejects and a
  call that resolves to \<^verbatim>\<open>null\<close> end in the 500, each after one request.
\<close>

theorem chat_provider_failure_witness:
  "chat (js ''sk'') [alphaRecord] (\<lambda>r. Rejects)
     (Some \<lparr>message = JString (js ''Alpha''), history = JUndefined\<rparr>) =
     ([Ranked (js ''Alpha'') 4, Requested (chatRequest (js ''Alpha'') [alphaRecord])],
      Response 500 (ErrorBody (js ''Fallo interno de chat''))) \<and>
   chat (js ''sk'') [alphaRecord] (\<lambda>r. Resolves Nullish)
     (Some \<lparr>message = JString (js ''Alpha''), history = JUndefined\<rparr>) =
     ([Ranked (js ''Alpha'') 4, Requested (chatRequest (js ''Alpha'') [alphaRecord])],
      Response 500 (ErrorBody (js ''Fallo interno de chat'')))"
proof -
  have k: "js ''sk'' \<noteq> []" and m: "js ''Alpha'' \<noteq> []" by (simp_all add: js_def)
  have ctx: "getTopContext [alphaRecord] (js ''Alpha'') 4 = Some [alphaRecord]"
    by (simp add: getTopContext_single)
  show ?thesis
    using chat_provider_failure [OF k m ctx, of "\<lambda>r. Rejects" JUndefined]
      chat_provider_failure [OF k m ctx, of "\<lambda>r. Resolves Nullish" JUndefined]
    by (simp add: prod_eq_iff)
qed

text \<open>
  C7 as it is stated fails on a response of the wrong shape: when the call resolves
  to a completion without choices, the answer on the record Alpha is 200 and carries
  a reply, \<open>kpis\<close> and \<open>usedModel\<close>.
\<close>

theorem chat_malformed_counterexample:
  "chat (js ''sk'') [alphaRecord] (\<lambda>r. Resolves (Content None))
     (Some \<lparr>message = JString (js ''Alpha''), history = JUndefined\<rparr>) =
     ([Ranked (js ''Alpha'') 4, Requested (chatRequest (js ''Alpha'') [alphaRecord])],
      Response 200
        (ChatReply (js ''No pude generar una respuesta.'')
           (Some \<lparr>kstatus = Some (js ''active''), kprogress = None, docs = 0,
                  klastUpdate = Some (js ''2024-01-01'')\<rparr>)
           (js ''gpt-4o-mini'')))"
proof -
  have m: "js ''Alpha'' \<noteq> []" and k: "js ''sk'' \<noteq> []" by (simp_all add: js_def)
  have ctx: "getTopContext [alphaRecord] (js ''Alpha'') 4 = Some [alphaRecord]"
    by (simp add: getTopContext_single)
  have "chat (js ''sk'') [alphaRecord] (\<lambda>r. Resolves (Content None))
     (Some \<lparr>message = JString (js ''Alpha''), history = JUndefined\<rparr>) =
     chatAnswer (js ''sk'') (\<lambda>r. Resolves (Content None)) (js ''Alpha'') [alphaRecord]"
    by (rule chat_valid [OF m ctx])
  then show ?thesis
    using k by (simp add: chatAnswer_def completionText_def orElse_def
        topKpis_def topOf_def orEmpty_def alphaRecord_def)
qed

subsection \<open>C8: a message that is missing or not a string\<close>

text \<open>
  C8. When the request has no body, or a body whose \<open>message\<close> is missing or is not a
  string, the handler answers 400 with the body \<^verbatim>\<open>{ error: "Mensaje invalido" }\<close> (its a-acute is the code unit \<open>0xE1\<close>) and has
  neither ranked nor called the provider, whatever the credential, the catalog and
  the provider are.
\<close>

theorem chat_invalid_message:
  assumes "body = None \<or> (\<exists>b. body = Some b \<and> \<not> isString (message b))"
  shows "chat apiKey projects create body =
     ([], Response 400 (ErrorBody (js ''Mensaje inv'' @ [0xE1] @ js ''lido'')))"
  using assms by (auto simp: chat_def invalidMessage_def Let_def)

theorem chat_invalid_message_witness:
  "chat (js ''sk'') [alphaRecord] (\<lambda>r. Rejects) None =
     ([], Response 400 (ErrorBody (js ''Mensaje inv'' @ [0xE1] @ js ''lido''))) \<and>
   chat [] [alphaRecord] (\<lambda>r. Rejects) (Some \<lparr>message = JNumber 7, history = JUndefined\<rparr>) =
     ([], Response 400 (ErrorBody (js ''Mensaje inv'' @ [0xE1] @ js ''lido'')))"
  using chat_invalid_message [of None "js ''sk''" "[alphaRecord]" "\<lambda>r. Rejects"]
    chat_invalid_message [of "Some \<lparr>message = JNumber 7, history = JUndefined\<rparr>" "[]"
      "[alphaRecord]" "\<lambda>r. Rejects"]
  by simp

subsection \<open>C9: the empty message\<close>

text \<open>
  C9. The body whose \<open>message\<close> is the empty string, a string that is present, gets
  the same answer 400: the input check refuses every falsy message, and the empty
  query is not ranked.
\<close>

theorem chat_empty_message:
  "chat apiKey projects create (Some \<lparr>message = JString [], history = h\<rparr>) =
     ([], Response 400 (ErrorBody (js ''Mensaje inv'' @ [0xE1] @ js ''lido'')))"
  by (simp add: chat_def invalidMessage_def)

theorem chat_empty_message_witness:
  "chat [] [alphaRecord] (\<lambda>r. Rejects) (Some \<lparr>message = JString (js ''''), history = JUndefined\<rparr>) =
     ([], Response 400 (ErrorBody (js ''Mensaje inv'' @ [0xE1] @ js ''lido'')))"
  using chat_empty_message [of "[]" "[alphaRecord]" "\<lambda>r. Rejects" JUndefined]
  by (simp add: js_def)

subsection \<open>C10: the display fallbacks go by truthiness\<close>

text \<open>
  C10. In the block of a record in the context for the provider, a progress that is
  present and 0, a last update that is the empty string and a responsible whose name
  is the empty string are shown as \<open>N/D\<close>, exactly as if the field were missing, and a
  list of documents whose only title is empty is shown as the dash; the \<open>kpis\<close> of
  the same record carry the values as they are (progress 0, last update empty, one
  document). The block of the record at index \<open>i\<close> of the context is part of the text
  of the context.
\<close>

theorem snippet_truthiness:
  "(progress p = Some 0 \<longrightarrow>
      snippet i p = snippet i (p\<lparr>progress := None\<rparr>) \<and>
      isSubstring (js ''Avance: N/D%'') (snippet i p) \<and>
      (\<exists>k. topKpis (Some p) = Some k \<and> kprogress k = Some 0)) \<and>
   (lastUpdate p = Some [] \<longrightarrow>
      snippet i p = snippet i (p\<lparr>lastUpdate := None\<rparr>) \<and>
      isSubstring ([0xDA] @ js ''ltima actualizaci'' @ [0xF3] @ js ''n: N/D\<newline>'') (snippet i p) \<and>
      (\<exists>k. topKpis (Some p) = Some k \<and> klastUpdate k = Some [])) \<and>
   (responsible p = Some (Responsible (Some [])) \<longrightarrow>
      snippet i p = snippet i (p\<lparr>responsible := None\<rparr>) \<and>
      isSubstring (js ''Responsable: N/D\<newline>'') (snippet i p)) \<and>
   (documents p = Some [Document (Some [])] \<longrightarrow>
      isSubstring (js ''Documentos: '' @ emDash @ js ''\<newline>'') (snippet i p) \<and>
      (\<exists>k. topKpis (Some p) = Some k \<and> docs k = 1)) \<and>
   (i < length ctx \<and> ctx ! i = p \<longrightarrow> isSubstring (snippet i p) (projectSnippets ctx))"
proof (intro conjI impI)
  assume zero: "progress p = Some 0"
  show "snippet i p = snippet i (p\<lparr>progress := None\<rparr>)"
    using zero by (simp add: snippet_def progressOr_def responsibleName_def titles_def)
  show "isSubstring (js ''Avance: N/D%'') (snippet i p)"
    using snippet_avance [of p i] zero by (simp add: progressOr_def js_def)
  show "\<exists>k. topKpis (Some p) = Some k \<and> kprogress k = Some 0"
    using zero by (simp add: topKpis_def)
next
  assume empty: "lastUpdate p = Some []"
  show "snippet i p = snippet i (p\<lparr>lastUpdate := None\<rparr>)"
    using empty by (simp add: snippet_def orElse_def responsibleName_def titles_def)
  show "isSubstring ([0xDA] @ js ''ltima actualizaci'' @ [0xF3] @ js ''n: N/D\<newline>'') (snippet i p)"
    using snippet_actualizacion [of p i] empty by (simp add: orElse_def js_def)
  show "\<exists>k. topKpis (Some p) = Some k \<and> klastUpdate k = Some []"
    using empty by (simp add: topKpis_def)
next
  assume empty: "responsible p = Some (Responsible (Some []))"
  show "snippet i p = snippet i (p\<lparr>responsible := None\<rparr>)"
    using empty by (simp add: snippet_def orElse_def responsibleName_def titles_def)
  show "isSubstring (js ''Responsable: N/D\<newline>'') (snippet i p)"
    using snippet_responsable [of p i] empty by (simp add: orElse_def responsibleName_def js_def)
next
  assume untitled: "documents p = Some [Document (Some [])]"
  show "isSubstring (js ''Documentos: '' @ emDash @ js ''\<newline>'') (snippet i p)"
    using snippet_documentos [of p i] untitled by (simp add: orElse_def titles_def orEmpty_def)
  show "\<exists>k. topKpis (Some p) = Some k \<and> docs k = 1"
    using untitled by (simp add: topKpis_def orEmpty_def)
next
  assume "i < length ctx \<and> ctx ! i = p"
  then show "isSubstring (snippet i p) (projectSnippets ctx)"
    using snippet_in_block [of i ctx] by auto
qed

text \<open>The record Alpha with progress 0 is rendered as the record Alpha without progress.\<close>

theorem snippet_truthiness_witness:
  "snippet 0 (alphaRecord\<lparr>progress := Some 0\<rparr>) = snippet 0 alphaRecord \<and>
   isSubstring (js ''Avance: N/D%'') (snippet 0 (alphaRecord\<lparr>progress := Some 0\<rparr>)) \<and>
   map_option kprogress (topKpis (Some (alphaRecord\<lparr>progress := Some 0\<rparr>))) = Some (Some 0) \<and>
   isSubstring (snippet 0 (alphaRecord\<lparr>progress := Some 0\<rparr>))
     (projectSnippets [alphaRecord\<lparr>progress := Some 0\<rparr>])"
proof -
  let ?p = "alphaRecord\<lparr>progress := Some 0\<rparr>"
  have "progress ?p = Some 0" by simp
  moreover have "?p\<lparr>progress := None\<rparr> = alphaRecord" by (simp add: alphaRecord_def)
  moreover have "0 < length [?p] \<and> [?p] ! 0 = ?p" by simp
  ultimately show ?thesis
    using snippet_truthiness [of ?p 0 "[?p]"] by auto
qed

end
